theory Spec2Isabelle
  imports Main "HOL-Library.Sublist" "HOL-Library.Multiset"
begin

section \<open>Hangman: the letter prompt and the game state\<close>

text \<open>
  A shallow embedding of \<^verbatim>\<open>hangman_game/hangman.py\<close>. A Python \<^verbatim>\<open>str\<close> is a
  \<^typ>\<open>string\<close>; a letter is a string of length one, as in the source, where the loop
  variable of \<^verbatim>\<open>for char in self.chosen_word\<close> and the value returned by the prompt are
  strings again. The two tests called \<^verbatim>\<open>in\<close> are kept apart: on a list it is
  membership (\<open>x \<in> set xs\<close>), on a string it is the substring test
  (\<^const>\<open>sublist\<close>).

  Console traffic is explicit. A function that reads the console takes the lines still to
  be read and returns what it wrote, together with either its result and the unread lines
  or the \<^verbatim>\<open>EOFError\<close> that \<^verbatim>\<open>input\<close> raises when no line is left.
\<close>

subsection \<open>Console\<close>

datatype event =
    Input string    \<comment> \<open>\<^verbatim>\<open>input(prompt)\<close> wrote its prompt\<close>
  | Print string    \<comment> \<open>\<^verbatim>\<open>print(text)\<close>\<close>
  | System string   \<comment> \<open>\<^verbatim>\<open>os.system(command)\<close>\<close>

datatype error = EOFError

definition guess_prompt :: string where
  "guess_prompt = CHR 0x0A # CHR 0x0A # ''Guess a letter: ''"

definition single_letter_message :: string where
  "single_letter_message = CHR 0x0A # ''No blanks and only a single letter!''"

definition alphabetic_message :: string where
  "alphabetic_message = CHR 0x0A # ''Only alphabetic characters are allowed!''"

definition already_guessed_message :: string where
  "already_guessed_message = CHR 0x0A # ''You have already guessed that letter!''"

subsection \<open>The letter prompt\<close>

text \<open>
  \<^verbatim>\<open>get_guess_word\<close>, lines 95 to 104. The string methods \<^verbatim>\<open>str.lower\<close> and
  \<^verbatim>\<open>str.isalpha\<close> belong to Python, not to the repository; they are the parameters
  \<open>lower\<close> and \<open>isalpha\<close>, so every statement below holds whatever they compute.
  The \<^verbatim>\<open>while True\<close> loop consumes one line per round, hence the recursion on the
  lines; with no line left \<^verbatim>\<open>input\<close> has written its prompt and raises.
\<close>

fun get_guess_word ::
  "(string \<Rightarrow> string) \<Rightarrow> (string \<Rightarrow> bool) \<Rightarrow> string list
    \<Rightarrow> event list \<times> (error + string \<times> string list)" where
  "get_guess_word lower isalpha [] = ([Input guess_prompt], Inl EOFError)"
| "get_guess_word lower isalpha (line # lines) =
     (let guess_letter = lower line in
      if length guess_letter \<noteq> 1 then
        (case get_guess_word lower isalpha lines of
           (out, r) \<Rightarrow> (Input guess_prompt # Print single_letter_message # out, r))
      else if \<not> isalpha guess_letter then
        (case get_guess_word lower isalpha lines of
           (out, r) \<Rightarrow> (Input guess_prompt # Print alphabetic_message # out, r))
      else
        ([Input guess_prompt, System ''clear''], Inr (guess_letter, lines)))"

text \<open>
  \<^verbatim>\<open>str.lower\<close> and \<^verbatim>\<open>str.isalpha\<close> on ASCII text, to run the prompt on concrete
  lines. \<^verbatim>\<open>isalpha\<close> is false on the empty string.
\<close>

definition ascii_lower :: "string \<Rightarrow> string" where
  "ascii_lower s =
     map (\<lambda>c. case map_of (zip ''ABCDEFGHIJKLMNOPQRSTUVWXYZ'' ''abcdefghijklmnopqrstuvwxyz'') c of
                 Some d \<Rightarrow> d | None \<Rightarrow> c) s"

definition ascii_isalpha :: "string \<Rightarrow> bool" where
  "ascii_isalpha s \<longleftrightarrow>
     s \<noteq> [] \<and>
     list_all (\<lambda>c. c \<in> set ''abcdefghijklmnopqrstuvwxyzABCDEFGHIJKLMNOPQRSTUVWXYZ'') s"

subsection \<open>The game state\<close>

text \<open>The attributes of class \<^verbatim>\<open>Hangman\<close>, lines 125 to 129.\<close>

record hangman =
  player_name :: string
  chosen_word :: string
  missed_letter :: "string list"
  guessed_letter :: "string list"

text \<open>
  \<^verbatim>\<open>Hangman.__init__\<close>. The name comes from \<^verbatim>\<open>get_player_names()\<close> and the word from
  \<^verbatim>\<open>get_random_word()\<close>, a random element of the word list of module
  \<^verbatim>\<open>hangman_words\<close>; both results are arguments here.
\<close>

definition init :: "string \<Rightarrow> string \<Rightarrow> hangman" where
  "init name word =
     \<lparr>player_name = name, chosen_word = word, missed_letter = [], guessed_letter = []\<rparr>"

text \<open>\<^verbatim>\<open>sep.join(parts)\<close>.\<close>

fun join :: "string \<Rightarrow> string list \<Rightarrow> string" where
  "join sep [] = []"
| "join sep [x] = x"
| "join sep (x # y # ys) = x @ sep @ join sep (y # ys)"

text \<open>
  \<^verbatim>\<open>display_letters\<close>, lines 131 to 148: the loop appends one cell per character of the
  word to \<^verbatim>\<open>word_result\<close>, the accumulator of \<open>display_loop\<close>.
\<close>

fun display_loop :: "hangman \<Rightarrow> string \<Rightarrow> string list \<Rightarrow> string list" where
  "display_loop h [] word_result = word_result"
| "display_loop h (char # rest) word_result =
     (if [char] \<in> set (guessed_letter h) then display_loop h rest (word_result @ [[char]])
      else if [char] = '' '' then display_loop h rest (word_result @ ['' ''])
      else display_loop h rest (word_result @ [''_'']))"

definition display_letters :: "hangman \<Rightarrow> string" where
  "display_letters h = join '' '' (display_loop h (chosen_word h) [])"

text \<open>
  The body of \<^verbatim>\<open>check_letters\<close> below its first line, lines 154 to 159, with
  \<^verbatim>\<open>user_letter\<close> given: what it prints and the state it leaves. The chain has no
  final \<^verbatim>\<open>else\<close>, so a letter that passes no test leaves the state as it is.
\<close>

definition check_letters_with :: "hangman \<Rightarrow> string \<Rightarrow> event list \<times> hangman" where
  "check_letters_with h user_letter =
     (if user_letter \<in> set (guessed_letter h) \<or> user_letter \<in> set (missed_letter h) then
        ([Print already_guessed_message], h)
      else if sublist user_letter (chosen_word h) \<and> user_letter \<notin> set (guessed_letter h) then
        ([], h\<lparr>guessed_letter := guessed_letter h @ [user_letter]\<rparr>)
      else if \<not> sublist user_letter (chosen_word h) \<and> user_letter \<notin> set (missed_letter h) then
        ([], h\<lparr>missed_letter := missed_letter h @ [user_letter]\<rparr>)
      else ([], h))"

text \<open>\<^verbatim>\<open>check_letters\<close>, lines 150 to 159: prompt for a letter, then record it.\<close>

definition check_letters ::
  "(string \<Rightarrow> string) \<Rightarrow> (string \<Rightarrow> bool) \<Rightarrow> hangman \<Rightarrow> string list
    \<Rightarrow> event list \<times> (error + hangman \<times> string list)" where
  "check_letters lower isalpha h lines =
     (case get_guess_word lower isalpha lines of
        (out, Inl e) \<Rightarrow> (out, Inl e)
      | (out, Inr (user_letter, rest)) \<Rightarrow>
          (case check_letters_with h user_letter of
             (out', h') \<Rightarrow> (out @ out', Inr (h', rest))))"

text \<open>\<^verbatim>\<open>check_game_won\<close>, lines 168 to 173.\<close>

definition check_game_won :: "hangman \<Rightarrow> bool" where
  "check_game_won h = (if \<not> sublist ''_'' (display_letters h) then True else False)"

text \<open>\<^verbatim>\<open>end_of_game\<close>, lines 161 to 166.\<close>

definition end_of_game :: "hangman \<Rightarrow> bool" where
  "end_of_game h = (if check_game_won h \<or> length (missed_letter h) = 6 then True else False)"

text \<open>
  A run of guesses: the state after \<^verbatim>\<open>check_letters\<close> has recorded each letter of a
  list in turn.
\<close>

fun check_letters_seq :: "hangman \<Rightarrow> string list \<Rightarrow> hangman" where
  "check_letters_seq h [] = h"
| "check_letters_seq h (user_letter # rest) =
     check_letters_seq (snd (check_letters_with h user_letter)) rest"

text \<open>
  A game: \<open>n\<close> calls of \<^verbatim>\<open>check_letters\<close> in a row on one console, as the loop of
  \<^verbatim>\<open>play_game\<close> makes them. Each call reads on where the last one stopped, and an
  \<^verbatim>\<open>EOFError\<close> ends the run.
\<close>

fun check_letters_times ::
  "(string \<Rightarrow> string) \<Rightarrow> (string \<Rightarrow> bool) \<Rightarrow> nat \<Rightarrow> hangman \<Rightarrow> string list
    \<Rightarrow> event list \<times> (error + hangman \<times> string list)" where
  "check_letters_times lower isalpha 0 h lines = ([], Inr (h, lines))"
| "check_letters_times lower isalpha (Suc n) h lines =
     (case check_letters lower isalpha h lines of
        (out, Inl e) \<Rightarrow> (out, Inl e)
      | (out, Inr (h', rest)) \<Rightarrow>
          (case check_letters_times lower isalpha n h' rest of
             (out', r) \<Rightarrow> (out @ out', r)))"

text \<open>
  What a run of guesses \<open>gs\<close> has established: the hits are the guesses found in the
  word, the misses are the other guesses, and neither list repeats a letter.
\<close>

definition run_inv :: "string list \<Rightarrow> hangman \<Rightarrow> bool" where
  "run_inv gs h \<longleftrightarrow>
     set (guessed_letter h) = {g \<in> set gs. sublist g (chosen_word h)} \<and>
     set (missed_letter h) = {g \<in> set gs. \<not> sublist g (chosen_word h)} \<and>
     distinct (guessed_letter h) \<and> distinct (missed_letter h)"

text \<open>
  The masked word in the words of the specification, to compare \<^const>\<open>display_letters\<close>
  with: each character of the word is shown if it is a space or has been guessed, and as
  the placeholder otherwise; the cells are joined by single spaces.
\<close>

definition masked_word_spec :: "hangman \<Rightarrow> string" where
  "masked_word_spec h =
     join '' '' (map (\<lambda>c. if c = CHR '' '' \<or> [c] \<in> set (guessed_letter h) then [c] else ''_'')
                   (chosen_word h))"

section \<open>Basic facts\<close>

lemma sublist_single: "sublist [c] w \<longleftrightarrow> c \<in> set w"
  by (induction w) (simp_all add: sublist_Cons_right)

lemma join_Cons: "join sep (x # xs) = (if xs = [] then x else x @ sep @ join sep xs)"
  by (cases xs) simp_all

lemma display_loop_map:
  "display_loop h w acc =
     acc @ map (\<lambda>c. if [c] \<in> set (guessed_letter h) then [c]
                     else if c = CHR '' '' then '' '' else ''_'') w"
  by (induction w arbitrary: acc) simp_all

lemma underscore_in_join:
  "CHR ''_'' \<in> set (join '' '' cells) \<longleftrightarrow> (\<exists>cell\<in>set cells. CHR ''_'' \<in> set cell)"
  by (induction cells) (auto simp add: join_Cons)

lemma display_letters_map:
  "display_letters h =
     join '' '' (map (\<lambda>c. if [c] \<in> set (guessed_letter h) then [c]
                     else if c = CHR '' '' then '' '' else ''_'') (chosen_word h))"
  by (simp add: display_letters_def display_loop_map)

lemma underscore_in_display:
  "CHR ''_'' \<in> set (display_letters h) \<longleftrightarrow>
     (\<exists>c\<in>set (chosen_word h).
        if [c] \<in> set (guessed_letter h) then c = CHR ''_'' else c \<noteq> CHR '' '')"
proof -
  have cell: "CHR ''_'' \<in> set (if [c] \<in> set (guessed_letter h) then [c]
                     else if c = CHR '' '' then '' '' else ''_'') \<longleftrightarrow>
      (if [c] \<in> set (guessed_letter h) then c = CHR ''_'' else c \<noteq> CHR '' '')" for c
    by auto
  show ?thesis
    unfolding display_letters_map underscore_in_join
    by (simp only: set_map bex_simps cell)
qed

lemma placeholder_logic:
  assumes "u \<noteq> sp"
  shows "(\<forall>c\<in>W. (c \<in> G \<longrightarrow> c \<noteq> u) \<and> (c \<notin> G \<longrightarrow> c = sp)) \<longleftrightarrow>
         u \<notin> W \<and> (\<forall>c\<in>W. c \<noteq> sp \<longrightarrow> c \<in> G)"
  using assms by blast

lemma check_game_won_iff:
  "check_game_won h \<longleftrightarrow>
     CHR ''_'' \<notin> set (chosen_word h) \<and>
     (\<forall>c\<in>set (chosen_word h). c \<noteq> CHR '' '' \<longrightarrow> [c] \<in> set (guessed_letter h))"
proof -
  let ?G = "{c. [c] \<in> set (guessed_letter h)}"
  have "check_game_won h \<longleftrightarrow> CHR ''_'' \<notin> set (display_letters h)"
    by (simp add: check_game_won_def sublist_single)
  also have "\<dots> \<longleftrightarrow> (\<forall>c\<in>set (chosen_word h).
        (c \<in> ?G \<longrightarrow> c \<noteq> CHR ''_'') \<and> (c \<notin> ?G \<longrightarrow> c = CHR '' ''))"
    unfolding underscore_in_display by (simp split: if_splits)
  also have "\<dots> \<longleftrightarrow> CHR ''_'' \<notin> set (chosen_word h) \<and>
     (\<forall>c\<in>set (chosen_word h). c \<noteq> CHR '' '' \<longrightarrow> c \<in> ?G)"
    by (rule placeholder_logic) simp
  finally show ?thesis by simp
qed

lemma check_letters_seq_snoc:
  "check_letters_seq h (gs @ [g]) = snd (check_letters_with (check_letters_seq h gs) g)"
  by (induction gs arbitrary: h) simp_all

lemma check_letters_with_word [simp]:
  "chosen_word (snd (check_letters_with h g)) = chosen_word h"
  "player_name (snd (check_letters_with h g)) = player_name h"
  by (simp_all add: check_letters_with_def)

lemma check_letters_seq_word [simp]:
  "chosen_word (check_letters_seq h gs) = chosen_word h"
  "player_name (check_letters_seq h gs) = player_name h"
  by (induction gs arbitrary: h) simp_all

lemma check_letters_with_cases:
  obtains (again) "g \<in> set (guessed_letter h) \<or> g \<in> set (missed_letter h)"
      "check_letters_with h g = ([Print already_guessed_message], h)"
  | (hit) "g \<notin> set (guessed_letter h)" "g \<notin> set (missed_letter h)" "sublist g (chosen_word h)"
      "check_letters_with h g = ([], h\<lparr>guessed_letter := guessed_letter h @ [g]\<rparr>)"
  | (miss) "g \<notin> set (guessed_letter h)" "g \<notin> set (missed_letter h)" "\<not> sublist g (chosen_word h)"
      "check_letters_with h g = ([], h\<lparr>missed_letter := missed_letter h @ [g]\<rparr>)"
  unfolding check_letters_with_def by (cases "g \<in> set (guessed_letter h) \<or> g \<in> set (missed_letter h)"; cases "sublist g (chosen_word h)"; simp)

lemma run_inv_step:
  assumes "run_inv gs h"
  shows "run_inv (gs @ [g]) (snd (check_letters_with h g))"
proof (cases rule: check_letters_with_cases [where h = h and g = g])
  case again
  with assms show ?thesis unfolding run_inv_def by auto
next
  case hit
  with assms show ?thesis unfolding run_inv_def by auto
next
  case miss
  with assms show ?thesis unfolding run_inv_def by auto
qed

lemma fresh_run: "run_inv gs (check_letters_seq (init name W) gs)"
proof (induction gs rule: rev_induct)
  case Nil
  show ?case by (simp add: init_def run_inv_def)
next
  case (snoc g gs)
  then show ?case by (simp add: check_letters_seq_snoc run_inv_step)
qed

lemma hits_run:
  "distinct gs \<Longrightarrow> \<forall>g\<in>set gs. sublist g (chosen_word h) \<Longrightarrow>
   set gs \<inter> set (guessed_letter h) = {} \<Longrightarrow> set gs \<inter> set (missed_letter h) = {} \<Longrightarrow>
   check_letters_seq h gs = h\<lparr>guessed_letter := guessed_letter h @ gs\<rparr>"
proof (induction gs arbitrary: h)
  case Nil
  show ?case by simp
next
  case (Cons g gs)
  let ?h = "h\<lparr>guessed_letter := guessed_letter h @ [g]\<rparr>"
  from Cons.prems have step: "snd (check_letters_with h g) = ?h"
    by (simp add: check_letters_with_def)
  from Cons.prems have "check_letters_seq ?h gs = ?h\<lparr>guessed_letter := guessed_letter ?h @ gs\<rparr>"
    by (intro Cons.IH) auto
  with step show ?case by simp
qed

lemma misses_run:
  "distinct gs \<Longrightarrow> \<forall>g\<in>set gs. \<not> sublist g (chosen_word h) \<Longrightarrow>
   set gs \<inter> set (guessed_letter h) = {} \<Longrightarrow> set gs \<inter> set (missed_letter h) = {} \<Longrightarrow>
   check_letters_seq h gs = h\<lparr>missed_letter := missed_letter h @ gs\<rparr>"
proof (induction gs arbitrary: h)
  case Nil
  show ?case by simp
next
  case (Cons g gs)
  let ?h = "h\<lparr>missed_letter := missed_letter h @ [g]\<rparr>"
  from Cons.prems have step: "snd (check_letters_with h g) = ?h"
    by (simp add: check_letters_with_def)
  from Cons.prems have "check_letters_seq ?h gs = ?h\<lparr>missed_letter := missed_letter ?h @ gs\<rparr>"
    by (intro Cons.IH) auto
  with step show ?case by simp
qed


lemma get_guess_word_letter:
  "get_guess_word lower isalpha lines = (out, Inr (l, rest)) \<Longrightarrow> length l = 1 \<and> isalpha l"
  by (induction lines arbitrary: out)
     (auto simp add: Let_def split: if_splits prod.splits)

lemma get_guess_word_eof:
  "\<forall>y\<in>set lines. length (lower y) \<noteq> 1 \<or> \<not> isalpha (lower y) \<Longrightarrow>
   snd (get_guess_word lower isalpha lines) = Inl EOFError"
  by (induction lines) (auto simp add: Let_def split: prod.splits)

lemma check_letters_prompted:
  "get_guess_word lower isalpha lines = (out, Inr (l, rest)) \<Longrightarrow>
   check_letters lower isalpha h lines =
     (out @ fst (check_letters_with h l), Inr (snd (check_letters_with h l), rest))"
  by (simp add: check_letters_def split: prod.splits)

lemma check_letters_letter:
  assumes "check_letters lower isalpha h lines = (out, Inr (h', rest))"
  shows "\<exists>l. length l = 1 \<and> isalpha l \<and> h' = snd (check_letters_with h l)"
proof -
  obtain o1 r where g: "get_guess_word lower isalpha lines = (o1, r)"
    by (cases "get_guess_word lower isalpha lines")
  with assms obtain l rest' where r: "r = Inr (l, rest')"
    by (cases r) (auto simp add: check_letters_def)
  from g r have "length l = 1 \<and> isalpha l"
    using get_guess_word_letter by blast
  moreover from assms g r have "h' = snd (check_letters_with h l)"
    by (simp add: check_letters_prompted)
  ultimately show ?thesis by blast
qed

lemma placeholder_never_guessed:
  assumes "\<not> isalpha ''_''" and "''_'' \<notin> set (guessed_letter h)"
    and "check_letters lower isalpha h lines = (out, Inr (h', rest))"
  shows "''_'' \<notin> set (guessed_letter h')"
proof -
  from assms(3) obtain l where l: "isalpha l" "h' = snd (check_letters_with h l)"
    using check_letters_letter by blast
  with assms(1) have "l \<noteq> ''_''" by auto
  with l(2) assms(2) show ?thesis
    by (cases rule: check_letters_with_cases [where h = h and g = l]) auto
qed

lemma placeholder_never_guessed_times:
  assumes "\<not> isalpha ''_''"
  shows "''_'' \<notin> set (guessed_letter h) \<Longrightarrow>
         snd (check_letters_times lower isalpha n h lines) = Inr (h', rest) \<Longrightarrow>
         ''_'' \<notin> set (guessed_letter h')"
proof (induction n arbitrary: h lines)
  case 0
  then show ?case by simp
next
  case (Suc n)
  obtain out r where c: "check_letters lower isalpha h lines = (out, r)"
    by (cases "check_letters lower isalpha h lines")
  show ?case
  proof (cases r)
    case (Inl e)
    with c Suc.prems(2) show ?thesis by simp
  next
    case (Inr p)
    obtain h1 rest1 where p: "p = (h1, rest1)" by (cases p)
    from c Inr p have c1: "check_letters lower isalpha h lines = (out, Inr (h1, rest1))"
      by simp
    from placeholder_never_guessed [OF assms Suc.prems(1) c1]
    have 1: "''_'' \<notin> set (guessed_letter h1)" .
    from c1 Suc.prems(2)
    have 2: "snd (check_letters_times lower isalpha n h1 rest1) = Inr (h', rest)"
      by (simp split: prod.splits)
    from Suc.IH [OF 1 2] show ?thesis .
  qed
qed

text \<open>
  The win test looks for the placeholder in the rendered word. A record that is not a state
  of a game, with the underscore both in the word and among the hits, is therefore not won
  although each of its characters is a hit; the prompt never records the underscore
  (\<open>placeholder_never_guessed_times\<close>).
\<close>

lemma check_game_won_placeholder_hit:
  "\<not> check_game_won \<lparr>player_name = ''p'', chosen_word = ''a_'', missed_letter = [],
                      guessed_letter = [''a'', ''_'']\<rparr>"
  by (simp add: check_game_won_iff)

lemma join_cells_length:
  "length (join '' '' (map (\<lambda>c. [f c]) w)) = 2 * length w - 1"
  by (induction w) (auto simp add: join_Cons)

lemma join_cells_nth:
  "i < length w \<Longrightarrow> join '' '' (map (\<lambda>c. [f c]) w) ! (2 * i) = f (w ! i)"
proof (induction w arbitrary: i)
  case Nil
  then show ?case by simp
next
  case (Cons a w)
  show ?case
  proof (cases i)
    case 0
    then show ?thesis by (simp add: join_Cons)
  next
    case (Suc j)
    with Cons.prems have j: "j < length w" by simp
    then have "w \<noteq> []" by auto
    with Suc Cons.IH [OF j] show ?thesis by (simp add: join_Cons)
  qed
qed

lemma masked_word_spec_cells:
  "masked_word_spec h =
     join '' '' (map (\<lambda>c. [if c = CHR '' '' \<or> [c] \<in> set (guessed_letter h) then c else CHR ''_''])
                   (chosen_word h))"
  unfolding masked_word_spec_def
  by (rule arg_cong [where f = "join '' ''"]) simp

lemma display_letters_spec: "display_letters h = masked_word_spec h"
  unfolding display_letters_map masked_word_spec_def
  by (rule arg_cong [where f = "join '' ''"]) auto

lemma fresh_hits:
  assumes "distinct gs" and "\<forall>g\<in>set gs. sublist g W"
  shows "check_letters_seq (init name W) gs = (init name W)\<lparr>guessed_letter := gs\<rparr>"
  using hits_run [of gs "init name W"] assms by (simp add: init_def)

lemma fresh_misses:
  assumes "distinct gs" and "\<forall>g\<in>set gs. \<not> sublist g W"
  shows "check_letters_seq (init name W) gs = (init name W)\<lparr>missed_letter := gs\<rparr>"
  using misses_run [of gs "init name W"] assms by (simp add: init_def)

section \<open>The claims\<close>

text \<open>
  \<^bold>\<open>C1.\<close> Recording a new letter. In every state, for every one-character letter that is
  neither among the hits nor among the misses, \<^const>\<open>check_letters_with\<close> prints nothing
  and appends the letter to \<^const>\<open>guessed_letter\<close> when the character occurs in
  \<^const>\<open>chosen_word\<close>, and to \<^const>\<open>missed_letter\<close> when it does not; the result is
  the old record with that one field updated, so nothing else changes. The letters that
  the prompt returns are such one-character strings.
\<close>

theorem check_letters_new_letter:
  assumes "[c] \<notin> set (guessed_letter h)" and "[c] \<notin> set (missed_letter h)"
  shows "check_letters_with h [c] =
           ([], if c \<in> set (chosen_word h)
                then h\<lparr>guessed_letter := guessed_letter h @ [[c]]\<rparr>
                else h\<lparr>missed_letter := missed_letter h @ [[c]]\<rparr>)"
  using assms by (simp add: check_letters_with_def sublist_single)

theorem check_letters_new_letter_witness:
  "''c'' \<notin> set (guessed_letter (init ''p'' ''cat'')) \<and>
   ''c'' \<notin> set (missed_letter (init ''p'' ''cat'')) \<and>
   check_letters_with (init ''p'' ''cat'') ''c'' =
     ([], \<lparr>player_name = ''p'', chosen_word = ''cat'', missed_letter = [],
            guessed_letter = [''c'']\<rparr>) \<and>
   check_letters_with (init ''p'' ''cat'') ''x'' =
     ([], \<lparr>player_name = ''p'', chosen_word = ''cat'', missed_letter = [''x''],
            guessed_letter = []\<rparr>)"
proof -
  have g: "[c] \<notin> set (guessed_letter (init ''p'' ''cat''))" for c
    by (simp add: init_def)
  have m: "[c] \<notin> set (missed_letter (init ''p'' ''cat''))" for c
    by (simp add: init_def)
  from check_letters_new_letter [OF g m, of "CHR ''c''"]
       check_letters_new_letter [OF g m, of "CHR ''x''"] g m
  show ?thesis by (simp add: init_def)
qed

text \<open>
  \<^bold>\<open>C2.\<close> In every state of a game, \<^const>\<open>check_game_won\<close> holds exactly when each
  character of \<^const>\<open>chosen_word\<close> other than the space is in
  \<^const>\<open>guessed_letter\<close>. The states of a game are those that any number of calls of
  \<^const>\<open>check_letters\<close> reach from a fresh game, with any word and any console input;
  \<open>isalpha\<close> stands for \<^verbatim>\<open>str.isalpha\<close>, which is false on the underscore.
\<close>

theorem check_game_won_iff_all_guessed:
  assumes "\<not> isalpha ''_''"
    and "snd (check_letters_times lower isalpha n (init name word) lines) = Inr (h, rest)"
  shows "check_game_won h \<longleftrightarrow>
           (\<forall>c\<in>set (chosen_word h). c \<noteq> CHR '' '' \<longrightarrow> [c] \<in> set (guessed_letter h))"
proof -
  have "''_'' \<notin> set (guessed_letter (init name word))" by (simp add: init_def)
  from placeholder_never_guessed_times [OF assms(1) this assms(2)]
  have "''_'' \<notin> set (guessed_letter h)" .
  moreover have "CHR ''_'' \<noteq> CHR '' ''" by simp
  ultimately show ?thesis unfolding check_game_won_iff by blast
qed

theorem check_game_won_iff_all_guessed_witness:
  "\<not> ascii_isalpha ''_'' \<and>
   snd (check_letters_times ascii_lower ascii_isalpha (Suc (Suc (Suc 0))) (init ''p'' ''cat'')
          [''c'', ''A'', ''7'', ''t'', ''z'']) =
     Inr (\<lparr>player_name = ''p'', chosen_word = ''cat'', missed_letter = [],
            guessed_letter = [''c'', ''a'', ''t'']\<rparr>, [''z'']) \<and>
   check_game_won \<lparr>player_name = ''p'', chosen_word = ''cat'', missed_letter = [],
                    guessed_letter = [''c'', ''a'', ''t'']\<rparr>"
proof -
  have 1: "\<not> ascii_isalpha ''_''" by (simp add: ascii_isalpha_def)
  have 2: "snd (check_letters_times ascii_lower ascii_isalpha (Suc (Suc (Suc 0)))
             (init ''p'' ''cat'') [''c'', ''A'', ''7'', ''t'', ''z'']) =
     Inr (\<lparr>player_name = ''p'', chosen_word = ''cat'', missed_letter = [],
            guessed_letter = [''c'', ''a'', ''t'']\<rparr>, [''z''])"
    by (simp add: check_letters_def check_letters_with_def init_def ascii_lower_def
        ascii_isalpha_def sublist_single)
  from check_game_won_iff_all_guessed [OF 1 2]
  have "check_game_won \<lparr>player_name = ''p'', chosen_word = ''cat'', missed_letter = [],
                    guessed_letter = [''c'', ''a'', ''t'']\<rparr>" by simp
  with 1 2 show ?thesis by (intro conjI)
qed


text \<open>
  \<^bold>\<open>C3.\<close> In every state, \<^const>\<open>end_of_game\<close> holds exactly when the game is won or
  \<^const>\<open>missed_letter\<close> has six entries (the loss test of the source, which has no
  function of its own).
\<close>

theorem end_of_game_iff: "end_of_game h \<longleftrightarrow> check_game_won h \<or> length (missed_letter h) = 6"
  by (simp add: end_of_game_def)

theorem end_of_game_iff_witness:
  "end_of_game \<lparr>player_name = ''p'', chosen_word = ''dog'',
                 missed_letter = [''q'', ''w'', ''e'', ''r'', ''t'', ''y''], guessed_letter = []\<rparr> \<and>
   \<not> end_of_game \<lparr>player_name = ''p'', chosen_word = ''dog'',
                 missed_letter = [''q'', ''w'', ''e'', ''r'', ''t''], guessed_letter = []\<rparr>"
  using end_of_game_iff [of "\<lparr>player_name = ''p'', chosen_word = ''dog'',
                 missed_letter = [''q'', ''w'', ''e'', ''r'', ''t'', ''y''], guessed_letter = []\<rparr>"]
    end_of_game_iff [of "\<lparr>player_name = ''p'', chosen_word = ''dog'',
                 missed_letter = [''q'', ''w'', ''e'', ''r'', ''t''], guessed_letter = []\<rparr>"]
  by (simp add: check_game_won_iff)

text \<open>
  \<^bold>\<open>C4.\<close> In every state, \<^const>\<open>display_letters\<close> returns the masked word of the
  specification: one cell per character of the word, the character itself when it is a
  space or a hit and the underscore otherwise, the cells joined by single spaces. The
  result therefore has \<open>2 * n - 1\<close> characters for a word of \<open>n > 0\<close> characters, and
  position \<open>2 * i\<close> shows character \<open>i\<close> of the word: a character that is neither a space
  nor a hit is shown as the underscore, never as itself.
\<close>

theorem display_letters_masked:
  "display_letters h = masked_word_spec h \<and>
   length (display_letters h) = 2 * length (chosen_word h) - 1 \<and>
   (\<forall>i<length (chosen_word h).
      display_letters h ! (2 * i) =
        (if chosen_word h ! i = CHR '' '' \<or> [chosen_word h ! i] \<in> set (guessed_letter h)
         then chosen_word h ! i else CHR ''_''))"
  unfolding display_letters_spec
  by (simp add: masked_word_spec_cells join_cells_length join_cells_nth)

theorem display_letters_masked_witness:
  "display_letters \<lparr>player_name = ''p'', chosen_word = ''cat'', missed_letter = [],
                     guessed_letter = [''c'', ''a'']\<rparr> = ''c a _'' \<and>
   display_letters \<lparr>player_name = ''p'', chosen_word = ''cat'', missed_letter = [],
                     guessed_letter = [''c'', ''a'']\<rparr> ! 4 = CHR ''_''"
proof -
  let ?h = "\<lparr>player_name = ''p'', chosen_word = ''cat'', missed_letter = [],
             guessed_letter = [''c'', ''a'']\<rparr>"
  have i: "(2::nat) < length (chosen_word ?h)" by simp
  from display_letters_masked [of ?h]
  have e: "display_letters ?h = masked_word_spec ?h"
    and n: "\<forall>i<length (chosen_word ?h).
      display_letters ?h ! (2 * i) =
        (if chosen_word ?h ! i = CHR '' '' \<or> [chosen_word ?h ! i] \<in> set (guessed_letter ?h)
         then chosen_word ?h ! i else CHR ''_'')"
    by blast+
  from n i have "display_letters ?h ! (2 * 2) =
        (if chosen_word ?h ! 2 = CHR '' '' \<or> [chosen_word ?h ! 2] \<in> set (guessed_letter ?h)
         then chosen_word ?h ! 2 else CHR ''_'')" by blast
  then have "display_letters ?h ! 4 = CHR ''_''" by simp
  moreover from e have "display_letters ?h = ''c a _''"
    by (simp add: masked_word_spec_def)
  ultimately show ?thesis by simp
qed

text \<open>
  \<^bold>\<open>C5.\<close> Recording a letter again. In every state, for every letter already among the
  hits or the misses, \<^const>\<open>check_letters_with\<close> prints the "already guessed" message
  and returns the state as it was; both lists, and so their lengths, are the same before
  and after.
\<close>

theorem check_letters_repeated_letter:
  assumes "g \<in> set (guessed_letter h) \<or> g \<in> set (missed_letter h)"
  shows "check_letters_with h g = ([Print already_guessed_message], h)"
  using assms by (simp add: check_letters_with_def)

theorem check_letters_repeated_letter_witness:
  "(''x'' \<in> set [''c''] \<or> ''x'' \<in> set [''x'']) \<and>
   check_letters_with \<lparr>player_name = ''p'', chosen_word = ''cat'', missed_letter = [''x''],
                        guessed_letter = [''c'']\<rparr> ''x'' =
     ([Print already_guessed_message],
      \<lparr>player_name = ''p'', chosen_word = ''cat'', missed_letter = [''x''],
       guessed_letter = [''c'']\<rparr>)"
proof -
  let ?h = "\<lparr>player_name = ''p'', chosen_word = ''cat'', missed_letter = [''x''],
             guessed_letter = [''c'']\<rparr>"
  have h: "''x'' \<in> set (guessed_letter ?h) \<or> ''x'' \<in> set (missed_letter ?h)" by simp
  from check_letters_repeated_letter [OF h] show ?thesis by simp
qed

text \<open>
  \<^bold>\<open>C6.\<close> Hits and misses stay disjoint. After any run of guesses from a fresh game no
  letter is in both \<^const>\<open>guessed_letter\<close> and \<^const>\<open>missed_letter\<close>; and in any
  state one guess either leaves both lists as they are, or appends the letter to the hits
  alone, or appends it to the misses alone.
\<close>

theorem hits_misses_disjoint:
  "set (guessed_letter (check_letters_seq (init name W) gs)) \<inter>
     set (missed_letter (check_letters_seq (init name W) gs)) = {} \<and>
   (guessed_letter (snd (check_letters_with h g)) = guessed_letter h \<and>
      missed_letter (snd (check_letters_with h g)) = missed_letter h \<or>
    guessed_letter (snd (check_letters_with h g)) = guessed_letter h @ [g] \<and>
      missed_letter (snd (check_letters_with h g)) = missed_letter h \<or>
    guessed_letter (snd (check_letters_with h g)) = guessed_letter h \<and>
      missed_letter (snd (check_letters_with h g)) = missed_letter h @ [g])"
proof
  have "run_inv gs (check_letters_seq (init name W) gs)" by (rule fresh_run)
  then show "set (guessed_letter (check_letters_seq (init name W) gs)) \<inter>
     set (missed_letter (check_letters_seq (init name W) gs)) = {}"
    unfolding run_inv_def by blast
next
  show "guessed_letter (snd (check_letters_with h g)) = guessed_letter h \<and>
      missed_letter (snd (check_letters_with h g)) = missed_letter h \<or>
    guessed_letter (snd (check_letters_with h g)) = guessed_letter h @ [g] \<and>
      missed_letter (snd (check_letters_with h g)) = missed_letter h \<or>
    guessed_letter (snd (check_letters_with h g)) = guessed_letter h \<and>
      missed_letter (snd (check_letters_with h g)) = missed_letter h @ [g]"
    by (cases rule: check_letters_with_cases [where h = h and g = g]) simp_all
qed

theorem hits_misses_disjoint_witness:
  "guessed_letter (check_letters_seq (init ''p'' ''cat'') [''c'', ''x'', ''c'', ''a'', ''x'']) = [''c'', ''a''] \<and>
   missed_letter (check_letters_seq (init ''p'' ''cat'') [''c'', ''x'', ''c'', ''a'', ''x'']) = [''x''] \<and>
   set (guessed_letter (check_letters_seq (init ''p'' ''cat'') [''c'', ''x'', ''c'', ''a'', ''x''])) \<inter>
     set (missed_letter (check_letters_seq (init ''p'' ''cat'') [''c'', ''x'', ''c'', ''a'', ''x''])) = {}"
proof -
  let ?gs = "[''c'', ''x'', ''c'', ''a'', ''x'']"
  have run: "check_letters_seq (init ''p'' ''cat'') ?gs =
     \<lparr>player_name = ''p'', chosen_word = ''cat'', missed_letter = [''x''],
      guessed_letter = [''c'', ''a'']\<rparr>"
    by (simp add: init_def check_letters_with_def sublist_single)
  from hits_misses_disjoint [of "''p''" "''cat''" ?gs "init ''p'' ''cat''" "''c''"]
  have "set (guessed_letter (check_letters_seq (init ''p'' ''cat'') ?gs)) \<inter>
     set (missed_letter (check_letters_seq (init ''p'' ''cat'') ?gs)) = {}"
    by (rule conjunct1)
  moreover have "guessed_letter (check_letters_seq (init ''p'' ''cat'') ?gs) = [''c'', ''a'']"
    unfolding run by simp
  moreover have "missed_letter (check_letters_seq (init ''p'' ''cat'') ?gs) = [''x'']"
    unfolding run by simp
  ultimately show ?thesis by (intro conjI)
qed

text \<open>
  \<^bold>\<open>C7.\<close> Winning. Let the guesses be distinct, each a character of the word \<open>W\<close>, and
  together include every character of \<open>W\<close> other than the space; guesses are letters, so
  none of them is the underscore. Then, from a fresh game, \<^const>\<open>check_game_won\<close> holds
  after the last guess, and after every initial part of the guesses the number of misses
  is not six. The word need not be non-empty or lowercase for this.
\<close>

theorem covering_guesses_win:
  assumes "distinct gs"
    and "\<forall>g\<in>set gs. \<exists>c\<in>set W. g = [c]"
    and "\<forall>c\<in>set W. c \<noteq> CHR '' '' \<longrightarrow> [c] \<in> set gs"
    and "''_'' \<notin> set gs"
  shows "check_game_won (check_letters_seq (init name W) gs) \<and>
         (\<forall>k\<le>length gs.
            length (missed_letter (check_letters_seq (init name W) (take k gs))) \<noteq> 6)"
proof
  from assms(2) have hits: "\<forall>g\<in>set gs. sublist g W"
    by (auto simp add: sublist_single)
  have "CHR ''_'' \<noteq> CHR '' ''" by simp
  with assms(3,4) have "CHR ''_'' \<notin> set W" by blast
  with assms(3) show "check_game_won (check_letters_seq (init name W) gs)"
    unfolding check_game_won_iff fresh_hits [OF assms(1) hits] by (simp add: init_def)
  show "\<forall>k\<le>length gs.
            length (missed_letter (check_letters_seq (init name W) (take k gs))) \<noteq> 6"
  proof (intro allI impI)
    fix k
    from assms(1) have d: "distinct (take k gs)" by simp
    from hits have "\<forall>g\<in>set (take k gs). sublist g W"
      by (meson in_set_takeD)
    from fresh_hits [OF d this]
    show "length (missed_letter (check_letters_seq (init name W) (take k gs))) \<noteq> 6"
      by (simp add: init_def)
  qed
qed

theorem covering_guesses_win_witness:
  "check_game_won (check_letters_seq (init ''p'' ''cat'') [''t'', ''c'', ''a'']) \<and>
   length (missed_letter (check_letters_seq (init ''p'' ''cat'') [''t'', ''c''])) \<noteq> 6"
proof -
  let ?gs = "[''t'', ''c'', ''a'']"
  have 1: "distinct ?gs" by simp
  have 2: "\<forall>g\<in>set ?gs. \<exists>c\<in>set ''cat''. g = [c]" by simp
  have 3: "\<forall>c\<in>set ''cat''. c \<noteq> CHR '' '' \<longrightarrow> [c] \<in> set ?gs" by simp
  have 4: "''_'' \<notin> set ?gs" by simp
  from covering_guesses_win [OF 1 2 3 4, of "''p''"]
  have w: "check_game_won (check_letters_seq (init ''p'' ''cat'') ?gs)"
    and l: "\<forall>k\<le>length ?gs.
            length (missed_letter (check_letters_seq (init ''p'' ''cat'') (take k ?gs))) \<noteq> 6"
    by blast+
  have "(2::nat) \<le> length ?gs" by simp
  with l have "length (missed_letter (check_letters_seq (init ''p'' ''cat'') (take 2 ?gs))) \<noteq> 6"
    by blast
  moreover have "take 2 ?gs = [''t'', ''c'']" by (simp add: numeral_2_eq_2)
  ultimately show ?thesis using w by simp
qed

text \<open>
  \<^bold>\<open>C8.\<close> Losing. Let \<open>gs\<close> be six distinct letters none of which occurs in the word
  \<open>W\<close>. Recorded from a fresh game in any order \<open>gs'\<close> (any list with the same elements,
  each as often), they leave six entries in \<^const>\<open>missed_letter\<close>, and
  \<^const>\<open>end_of_game\<close> holds. For a one-character letter, occurring in the word is
  membership of the character (lemma \<open>sublist_single\<close>).
\<close>

theorem six_misses_lose:
  assumes "distinct gs" and "length gs = 6" and "\<forall>g\<in>set gs. \<not> sublist g W"
    and "mset gs' = mset gs"
  shows "length (missed_letter (check_letters_seq (init name W) gs')) = 6 \<and>
         end_of_game (check_letters_seq (init name W) gs')"
proof -
  from assms(1,4) have d: "distinct gs'" by (metis mset_eq_imp_distinct_iff)
  from assms(4) have s: "set gs' = set gs" by (rule mset_eq_setD)
  from assms(2,4) have l: "length gs' = 6" by (metis mset_eq_length)
  from s assms(3) have "\<forall>g\<in>set gs'. \<not> sublist g W" by simp
  from fresh_misses [OF d this] l show ?thesis
    by (simp add: end_of_game_def)
qed

theorem six_misses_lose_witness:
  "length (missed_letter (check_letters_seq (init ''p'' ''dog'')
      [''y'', ''t'', ''r'', ''e'', ''w'', ''q''])) = 6 \<and>
   end_of_game (check_letters_seq (init ''p'' ''dog'') [''y'', ''t'', ''r'', ''e'', ''w'', ''q''])"
proof -
  let ?gs = "[''q'', ''w'', ''e'', ''r'', ''t'', ''y'']"
  have 1: "distinct ?gs" by simp
  have 2: "length ?gs = 6" by simp
  have 3: "\<forall>g\<in>set ?gs. \<not> sublist g ''dog''" by (simp add: sublist_single)
  have 4: "mset [''y'', ''t'', ''r'', ''e'', ''w'', ''q''] = mset ?gs" by simp
  from six_misses_lose [OF 1 2 3 4] show ?thesis by blast
qed

text \<open>
  \<^bold>\<open>C9.\<close> The letter prompt. Let the lines read be \<open>pre\<close>, then \<open>x\<close>, then \<open>rest\<close>,
  where \<open>x\<close> lowercased is one alphabetic character and no line of \<open>pre\<close> is. Then
  \<^const>\<open>get_guess_word\<close> returns \<open>x\<close> lowercased and leaves \<open>rest\<close> unread. For each
  line of \<open>pre\<close>, in order, it has written the prompt and then the single-letter message
  when the lowercased line has not length one, and the alphabetic message otherwise; for
  \<open>x\<close> it has written the prompt and cleared the screen.
\<close>

theorem get_guess_word_first_valid:
  assumes "\<forall>y\<in>set pre. length (lower y) \<noteq> 1 \<or> \<not> isalpha (lower y)"
    and "length (lower x) = 1" and "isalpha (lower x)"
  shows "get_guess_word lower isalpha (pre @ x # rest) =
           (concat (map (\<lambda>y. [Input guess_prompt,
                               Print (if length (lower y) \<noteq> 1 then single_letter_message
                                      else alphabetic_message)]) pre)
              @ [Input guess_prompt, System ''clear''],
            Inr (lower x, rest))"
  using assms by (induction pre) (auto simp add: Let_def)

theorem get_guess_word_first_valid_witness:
  "get_guess_word ascii_lower ascii_isalpha ['''', ''ab'', ''7'', ''Q'', ''z''] =
     ([Input guess_prompt, Print single_letter_message,
       Input guess_prompt, Print single_letter_message,
       Input guess_prompt, Print alphabetic_message,
       Input guess_prompt, System ''clear''],
      Inr (''q'', [''z'']))"
proof -
  let ?pre = "['''', ''ab'', ''7'']"
  have 1: "\<forall>y\<in>set ?pre. length (ascii_lower y) \<noteq> 1 \<or> \<not> ascii_isalpha (ascii_lower y)"
    by (simp add: ascii_lower_def ascii_isalpha_def)
  have 2: "length (ascii_lower ''Q'') = 1" by (simp add: ascii_lower_def)
  have 3: "ascii_isalpha (ascii_lower ''Q'')" by (simp add: ascii_lower_def ascii_isalpha_def)
  have 4: "ascii_lower ''Q'' = ''q''" by (simp add: ascii_lower_def)
  have 5: "?pre @ ''Q'' # [''z''] = ['''', ''ab'', ''7'', ''Q'', ''z'']" by simp
  have 6: "concat (map (\<lambda>y. [Input guess_prompt,
                               Print (if length (ascii_lower y) \<noteq> 1 then single_letter_message
                                      else alphabetic_message)]) ?pre)
              @ [Input guess_prompt, System ''clear''] =
     [Input guess_prompt, Print single_letter_message,
       Input guess_prompt, Print single_letter_message,
       Input guess_prompt, Print alphabetic_message,
       Input guess_prompt, System ''clear'']"
    by (simp add: ascii_lower_def)
  from get_guess_word_first_valid [OF 1 2 3, of "[''z'']"] show ?thesis
    unfolding 4 5 6 .
qed

text \<open>
  \<^bold>\<open>C10.\<close> The invariant of a run. After any run of guesses \<open>gs\<close> from a fresh game with
  the word \<open>W\<close>, every entry of \<^const>\<open>guessed_letter\<close> occurs in \<open>W\<close>, no entry of
  \<^const>\<open>missed_letter\<close> does, neither list has a duplicate, and the lengths of the two
  lists are the numbers of distinct guesses that occur and that do not occur in \<open>W\<close>.
\<close>

theorem fresh_run_invariant:
  "(\<forall>g\<in>set (guessed_letter (check_letters_seq (init name W) gs)). sublist g W) \<and>
   (\<forall>g\<in>set (missed_letter (check_letters_seq (init name W) gs)). \<not> sublist g W) \<and>
   distinct (guessed_letter (check_letters_seq (init name W) gs)) \<and>
   distinct (missed_letter (check_letters_seq (init name W) gs)) \<and>
   length (guessed_letter (check_letters_seq (init name W) gs)) = card {g \<in> set gs. sublist g W} \<and>
   length (missed_letter (check_letters_seq (init name W) gs)) = card {g \<in> set gs. \<not> sublist g W}"
proof -
  let ?h = "check_letters_seq (init name W) gs"
  have w: "chosen_word ?h = W" by (simp add: init_def)
  have "run_inv gs ?h" by (rule fresh_run)
  then have g: "set (guessed_letter ?h) = {g \<in> set gs. sublist g W}"
    and m: "set (missed_letter ?h) = {g \<in> set gs. \<not> sublist g W}"
    and dg: "distinct (guessed_letter ?h)" and dm: "distinct (missed_letter ?h)"
    unfolding run_inv_def w by simp_all
  from dg have "length (guessed_letter ?h) = card (set (guessed_letter ?h))"
    by (simp add: distinct_card)
  moreover from dm have "length (missed_letter ?h) = card (set (missed_letter ?h))"
    by (simp add: distinct_card)
  ultimately show ?thesis using g m dg dm by simp
qed

theorem fresh_run_invariant_witness:
  "guessed_letter (check_letters_seq (init ''p'' ''cat'') [''c'', ''x'', ''c'', ''a'', ''y'']) = [''c'', ''a''] \<and>
   missed_letter (check_letters_seq (init ''p'' ''cat'') [''c'', ''x'', ''c'', ''a'', ''y'']) = [''x'', ''y''] \<and>
   card {g \<in> set [''c'', ''x'', ''c'', ''a'', ''y'']. sublist g ''cat''} = 2 \<and>
   card {g \<in> set [''c'', ''x'', ''c'', ''a'', ''y'']. \<not> sublist g ''cat''} = 2"
proof -
  let ?gs = "[''c'', ''x'', ''c'', ''a'', ''y'']"
  have run: "check_letters_seq (init ''p'' ''cat'') ?gs =
     \<lparr>player_name = ''p'', chosen_word = ''cat'', missed_letter = [''x'', ''y''],
      guessed_letter = [''c'', ''a'']\<rparr>"
    by (simp add: init_def check_letters_with_def sublist_single)
  from fresh_run_invariant [of "''p''" "''cat''" ?gs]
  have "length (guessed_letter (check_letters_seq (init ''p'' ''cat'') ?gs)) =
          card {g \<in> set ?gs. sublist g ''cat''}"
    and "length (missed_letter (check_letters_seq (init ''p'' ''cat'') ?gs)) =
          card {g \<in> set ?gs. \<not> sublist g ''cat''}"
    by blast+
  then show ?thesis unfolding run by simp
qed

end
